theory Spec2Isabelle
  imports Main
begin

section \<open>Strings and the library functions the router calls\<close>

text \<open>
  A Go string is a sequence of bytes; it is modelled as a \<open>string\<close> (a list of 8-bit
  characters). The helpers below are the functions of package \<open>strings\<close> that
  \<open>trie.go\<close> calls, at the arguments it calls them with.
\<close>

definition HasPrefix :: "string \<Rightarrow> string \<Rightarrow> bool" where
  "HasPrefix s p = (take (length p) s = p)"

definition HasSuffix :: "string \<Rightarrow> string \<Rightarrow> bool" where
  "HasSuffix s x = (length x \<le> length s \<and> drop (length s - length x) s = x)"

fun Contains :: "string \<Rightarrow> string \<Rightarrow> bool" where
  "Contains [] x = (x = [])"
| "Contains (c # cs) x = (HasPrefix (c # cs) x \<or> Contains cs x)"

definition TrimPrefix :: "string \<Rightarrow> string \<Rightarrow> string" where
  "TrimPrefix s p = (if HasPrefix s p then drop (length p) s else s)"

text \<open>\<open>strings.IndexRune(s, c)\<close> for an ASCII \<open>c\<close>: the index of the first byte \<open>c\<close>,
  \<open>None\<close> where Go returns \<open>-1\<close>.\<close>

fun IndexRune :: "string \<Rightarrow> char \<Rightarrow> nat option" where
  "IndexRune [] c = None"
| "IndexRune (x # xs) c =
     (if x = c then Some 0
      else (case IndexRune xs c of None \<Rightarrow> None | Some i \<Rightarrow> Some (Suc i)))"

text \<open>\<open>strings.Split(s, "/")\<close>: the pieces between the slashes, at least one piece.\<close>

fun Split :: "string \<Rightarrow> string list" where
  "Split [] = [[]]"
| "Split (c # cs) =
     (if c = CHR ''/'' then [] # Split cs
      else (case Split cs of [] \<Rightarrow> [[c]] | x # xs \<Rightarrow> (c # x) # xs))"

text \<open>The Go slice expression \<open>s[a:b]\<close>, for \<open>a \<le> b \<le> len(s)\<close>.\<close>

definition slice :: "string \<Rightarrow> nat \<Rightarrow> nat \<Rightarrow> string" where
  "slice s a b = take (b - a) (drop a s)"

text \<open>
  The regular expressions compiled at package level. \<open>wordReg\<close> is \<open>^\w+$\<close>,
  \<open>suffixReg\<close> is \<open>\+[A-Za-z0-9!$%&'*+,-.:;=@_~]*$\<close>, \<open>doubleColonReg\<close> is
  \<open>^::[A-Za-z0-9!$%&'*+,-.:;=@_~]*$\<close> and \<open>multiSlashReg\<close> is \<open>/{2,}\<close>.
  In the character class \<open>,-.\<close> is the range from comma to full stop.
\<close>

definition alnum_chars :: string where
  "alnum_chars = ''ABCDEFGHIJKLMNOPQRSTUVWXYZabcdefghijklmnopqrstuvwxyz0123456789''"

definition word_char :: "char \<Rightarrow> bool" where
  "word_char c = (c \<in> set (alnum_chars @ ''_''))"

definition path_char :: "char \<Rightarrow> bool" where
  "path_char c = (c \<in> set (alnum_chars @ CHR 0x27 # ''!$%&*+,-.:;=@_~''))"

definition wordReg :: "string \<Rightarrow> bool" where
  "wordReg s = (s \<noteq> [] \<and> list_all word_char s)"

text \<open>\<open>suffixReg.FindString\<close>: the leftmost match, the empty string when there is none.\<close>

fun suffixReg_FindString :: "string \<Rightarrow> string" where
  "suffixReg_FindString [] = []"
| "suffixReg_FindString (c # cs) =
     (if c = CHR ''+'' \<and> list_all path_char cs then c # cs else suffixReg_FindString cs)"

definition doubleColonReg :: "string \<Rightarrow> bool" where
  "doubleColonReg s =
     (case s of
        a # b # r \<Rightarrow> a = CHR '':'' \<and> b = CHR '':'' \<and> list_all path_char r
      | _ \<Rightarrow> False)"

text \<open>\<open>multiSlashReg.ReplaceAllString(path, "/")\<close>: every run of two or more slashes
  becomes one slash.\<close>

fun multiSlash_Replace :: "string \<Rightarrow> string" where
  "multiSlash_Replace (a # b # cs) =
     (if a = CHR ''/'' \<and> b = CHR ''/'' then multiSlash_Replace (b # cs)
      else a # multiSlash_Replace (b # cs))"
| "multiSlash_Replace cs = cs"

definition fixPath :: "string \<Rightarrow> string" where
  "fixPath path = (if \<not> Contains path ''//'' then path else multiSlash_Replace path)"

text \<open>
  Three functions of Go's standard library are parameters of the model:
  \<open>strings.ToLower\<close>, \<open>strings.ToUpper\<close> (both Unicode aware in Go) and
  \<open>regexp.MustCompile\<close>. \<open>Compile L src\<close> is \<open>None\<close> where \<open>MustCompile\<close> panics,
  and otherwise the predicate \<open>MatchString\<close> of the compiled expression.
  \<open>ascii_lib\<close> is the instance used for concrete requests: on ASCII strings Go's
  \<open>ToLower\<close> and \<open>ToUpper\<close> change exactly the letters \<open>A-Z\<close> and \<open>a-z\<close>.
\<close>

record Lib =
  ToLower :: "string \<Rightarrow> string"
  ToUpper :: "string \<Rightarrow> string"
  Compile :: "string \<Rightarrow> (string \<Rightarrow> bool) option"

definition upper_chars :: string where
  "upper_chars = ''ABCDEFGHIJKLMNOPQRSTUVWXYZ''"

definition lower_chars :: string where
  "lower_chars = ''abcdefghijklmnopqrstuvwxyz''"

definition ascii_lower :: "char \<Rightarrow> char" where
  "ascii_lower c = (case map_of (zip upper_chars lower_chars) c of Some d \<Rightarrow> d | None \<Rightarrow> c)"

definition ascii_upper :: "char \<Rightarrow> char" where
  "ascii_upper c = (case map_of (zip lower_chars upper_chars) c of Some d \<Rightarrow> d | None \<Rightarrow> c)"

definition ascii_lib :: "(string \<Rightarrow> (string \<Rightarrow> bool) option) \<Rightarrow> Lib" where
  "ascii_lib rx = \<lparr>ToLower = map ascii_lower, ToUpper = map ascii_upper, Compile = rx\<rparr>"

section \<open>The data model of \<open>trie.go\<close>\<close>

text \<open>
  Nodes are heap objects that the code reaches through pointers and compares by pointer,
  so the model keeps them in a store: a list of nodes, a pointer being an index into it.
  A new node takes the next free index. A compiled \<open>*regexp.Regexp\<close> is its source
  text (what \<open>String()\<close> returns) with its \<open>MatchString\<close> predicate. A Go map is a
  partial function; a nil map reads like an empty one.
\<close>

record Regexp =
  String :: string
  MatchString :: "string \<Rightarrow> bool"

record 'h Node =
  name :: string
  allow :: string
  pattern :: string
  segment :: string
  suffix :: string
  endpoint :: bool
  wildcard :: bool
  parent :: "nat option"
  varyChildren :: "nat list"
  children :: "string \<rightharpoonup> nat"
  handlers :: "string \<rightharpoonup> 'h option"
  regex :: "Regexp option"

record Options =
  IgnoreCase :: bool
  FixedPathRedirect :: bool
  TrailingSlashRedirect :: bool

record 'h Trie =
  ignoreCase :: bool
  fpr :: bool
  tsr :: bool
  root :: nat
  nodes :: "'h Node list"

record Matched =
  Node :: "nat option"
  Params :: "string \<rightharpoonup> string"
  FPR :: string
  TSR :: string

text \<open>Every \<open>panic\<close> of the code is a value; the runtime panics of an index or a slice
  out of range are among them.\<close>

datatype error =
    MultiSlashExist
  | InvalidPattern
  | RegexpCompile
  | CantDefineAfter
  | InvalidPatternName
  | CantDefineAfterWildcard
  | PathNotStartWithSlash
  | AlreadyDefined
  | InvalidMethod
  | IndexOutOfRange
  | SliceOutOfRange

definition defaultOptions :: Options where
  "defaultOptions =
     \<lparr>IgnoreCase = True, FixedPathRedirect = True, TrailingSlashRedirect = True\<rparr>"

definition newNode :: "string \<Rightarrow> nat option \<Rightarrow> 'h Node" where
  "newNode seg par =
     \<lparr>name = [], allow = [], pattern = [], segment = seg, suffix = [], endpoint = False,
      wildcard = False, parent = par, varyChildren = [], children = Map.empty,
      handlers = Map.empty, regex = None\<rparr>"

text \<open>\<open>New(args ...Options)\<close>: the first argument when there is one, the defaults otherwise.\<close>

definition New :: "Options list \<Rightarrow> 'h Trie" where
  "New args =
     (let opts = (case args of [] \<Rightarrow> defaultOptions | a # _ \<Rightarrow> a) in
      \<lparr>ignoreCase = IgnoreCase opts, fpr = FixedPathRedirect opts,
       tsr = TrailingSlashRedirect opts, root = 0, nodes = [newNode [] None]\<rparr>)"

definition getChild :: "'h Node \<Rightarrow> string \<Rightarrow> nat option" where
  "getChild n key = children n key"

section \<open>Define: inserting a pattern\<close>

text \<open>
  \<open>parseNode\<close>, the branch \<open>segment[0] == ':'\<close>, up to \<open>node.name = name\<close>: the
  fields of the new node read off the segment. \<open>name[len(name)-1]\<close> panics on an empty
  name, which is how the segments \<open>:\<close> and \<open>:+a\<close> are rejected.
\<close>

definition finishVary :: "'h Node \<Rightarrow> string \<Rightarrow> error + 'h Node" where
  "finishVary nd nm = (if \<not> wordReg nm then Inl InvalidPattern else Inr (nd\<lparr>name := nm\<rparr>))"

definition parseVary :: "Lib \<Rightarrow> 'h Node \<Rightarrow> string \<Rightarrow> error + 'h Node" where
  "parseVary L nd seg =
     (let nm = drop 1 seg in
      if nm = [] then Inl IndexOutOfRange
      else if last nm = CHR ''*'' then finishVary (nd\<lparr>wildcard := True\<rparr>) (butlast nm)
      else
        (let sfx = suffixReg_FindString nm;
             nm1 = (if sfx \<noteq> [] then take (length nm - length sfx) nm else nm);
             nd1 = (if sfx \<noteq> [] then nd\<lparr>suffix := drop 1 sfx\<rparr> else nd)
         in
         if sfx \<noteq> [] \<and> drop 1 sfx = [] then Inl InvalidPattern
         else if nm1 = [] then Inl IndexOutOfRange
         else if last nm1 = CHR '')'' then
           (case IndexRune nm1 (CHR ''('') of
              None \<Rightarrow> finishVary nd1 nm1
            | Some index \<Rightarrow>
                if 0 < index then
                  (let re = slice nm1 (index + 1) (length nm1 - 1) in
                   if 0 < length re then
                     (case Compile L re of
                        None \<Rightarrow> Inl RegexpCompile
                      | Some m \<Rightarrow>
                          finishVary (nd1\<lparr>regex := Some \<lparr>String = re, MatchString = m\<rparr>\<rparr>)
                            (take index nm1))
                   else Inl InvalidPattern)
                else finishVary nd1 nm1)
         else finishVary nd1 nm1))"

text \<open>
  The loop \<open>for _, child := range parent.varyChildren\<close> of \<open>parseNode\<close>: \<open>None\<close> when
  the loop runs to its end, the child it returns or the panic otherwise.
\<close>

definition sameRegex :: "'h Node \<Rightarrow> 'h Node \<Rightarrow> bool" where
  "sameRegex child nd =
     ((\<not> wildcard nd \<and> regex child = None \<and> regex nd = None) \<or>
      (case regex child of
         None \<Rightarrow> False
       | Some a \<Rightarrow> (case regex nd of None \<Rightarrow> False | Some b \<Rightarrow> String a = String b)))"

fun reconcile :: "'h Node list \<Rightarrow> 'h Node \<Rightarrow> nat list \<Rightarrow> (error + nat) option" where
  "reconcile h nd [] = None"
| "reconcile h nd (c # cs) =
     (if wildcard (h ! c) then
        (if \<not> wildcard nd then Some (Inl CantDefineAfter)
         else if name (h ! c) \<noteq> name nd then Some (Inl InvalidPatternName)
         else Some (Inr c))
      else if suffix (h ! c) \<noteq> suffix nd then reconcile h nd cs
      else if sameRegex (h ! c) nd then
        (if name (h ! c) \<noteq> name nd then Some (Inl InvalidPatternName) else Some (Inr c))
      else reconcile h nd cs)"

text \<open>
  The comparison handed to \<open>sort.SliceStable\<close>, and the sort. For up to twenty
  elements Go's stable sort is the insertion sort below (each element moves left past
  the neighbours it is less than); for longer slices Go merges sorted blocks, with the
  same result, the comparison being a strict weak order.
\<close>

definition varyLess :: "'h Node \<Rightarrow> 'h Node \<Rightarrow> bool" where
  "varyLess a b =
     (if suffix a = [] \<and> suffix b \<noteq> [] then False
      else if suffix a \<noteq> [] \<and> suffix b = [] then True
      else if regex a \<noteq> None \<and> regex b = None then True
      else False)"

fun sift :: "('a \<Rightarrow> 'a \<Rightarrow> bool) \<Rightarrow> 'a \<Rightarrow> 'a list \<Rightarrow> 'a list" where
  "sift lt x [] = [x]"
| "sift lt x (y # ys) = (if lt x y then y # sift lt x ys else x # y # ys)"

definition SliceStable :: "('a \<Rightarrow> 'a \<Rightarrow> bool) \<Rightarrow> 'a list \<Rightarrow> 'a list" where
  "SliceStable lt xs = rev (foldl (\<lambda>acc x. sift lt x acc) [] xs)"

text \<open>The two ways \<open>parseNode\<close> attaches a new node: under a key of \<open>children\<close>, or
  appended to \<open>varyChildren\<close>, which is then sorted when it has more than one element.\<close>

definition attachChild ::
  "'h Node list \<Rightarrow> nat \<Rightarrow> string \<Rightarrow> 'h Node \<Rightarrow> nat \<times> 'h Node list" where
  "attachChild h par key nd =
     (let h1 = h @ [nd]; c = length h in
      (c, h1[par := (h1 ! par)\<lparr>children := (children (h1 ! par))(key \<mapsto> c)\<rparr>]))"

definition attachVary :: "'h Node list \<Rightarrow> nat \<Rightarrow> 'h Node \<Rightarrow> nat \<times> 'h Node list" where
  "attachVary h par nd =
     (let h1 = h @ [nd]; c = length h;
          s = varyChildren (h1 ! par) @ [c];
          s1 = (if 1 < length s then SliceStable (\<lambda>i j. varyLess (h1 ! i) (h1 ! j)) s else s)
      in (c, h1[par := (h1 ! par)\<lparr>varyChildren := s1\<rparr>]))"

text \<open>
  \<open>parseNode\<close>, in three parts. \<open>literalKey\<close> is \<open>_segment\<close>, the key of the lookup
  that opens the function. \<open>parseNamed\<close> is the branch \<open>segment[0] == ':'\<close>: the node
  is parsed, reconciled with the parent's \<open>varyChildren\<close> and, if none of them decides,
  attached. Every panic comes before the parent is changed, so a panic leaves the store
  as it was. The node allocated before a panic is unreachable and is not kept.
\<close>

definition literalKey :: "Lib \<Rightarrow> string \<Rightarrow> bool \<Rightarrow> string" where
  "literalKey L seg ic =
     (let s1 = (if doubleColonReg seg then drop 1 seg else seg)
      in if ic then ToLower L s1 else s1)"

definition parseNamed ::
  "Lib \<Rightarrow> 'h Node list \<Rightarrow> nat \<Rightarrow> 'h Node \<Rightarrow> string \<Rightarrow> error + nat \<times> 'h Node list" where
  "parseNamed L h par nd seg =
     (case parseVary L nd seg of
        Inl e \<Rightarrow> Inl e
      | Inr nd1 \<Rightarrow>
          (case reconcile h nd1 (varyChildren (h ! par)) of
             Some (Inl e) \<Rightarrow> Inl e
           | Some (Inr c) \<Rightarrow> Inr (c, h)
           | None \<Rightarrow> Inr (attachVary h par nd1)))"

definition parseNode ::
  "Lib \<Rightarrow> 'h Node list \<Rightarrow> nat \<Rightarrow> string \<Rightarrow> bool \<Rightarrow> error + nat \<times> 'h Node list" where
  "parseNode L h par seg ic =
     (let key = literalKey L seg ic;
          nd = newNode seg (Some par)
      in
      case getChild (h ! par) key of
        Some n \<Rightarrow> Inr (n, h)
      | None \<Rightarrow>
          if seg = [] then Inr (attachChild h par seg nd)
          else if doubleColonReg seg then Inr (attachChild h par key nd)
          else if hd seg = CHR '':'' then parseNamed L h par nd seg
          else if hd seg = CHR ''*'' \<or> hd seg = CHR ''('' \<or> hd seg = CHR '')'' then
            Inl InvalidPattern
          else if last seg = CHR ''*'' then
            (if key = [] then Inl SliceOutOfRange
             else Inr (attachChild h par (butlast key) (nd\<lparr>wildcard := True\<rparr>)))
          else Inr (attachChild h par key nd))"

text \<open>\<open>defineNode\<close> returns the store as it is when it returns or panics: the nodes
  attached before a panic stay attached.\<close>

fun defineNode ::
  "Lib \<Rightarrow> 'h Node list \<Rightarrow> nat \<Rightarrow> string list \<Rightarrow> bool \<Rightarrow> (error + nat) \<times> 'h Node list" where
  "defineNode L h par [] ic = (Inl IndexOutOfRange, h)"
| "defineNode L h par (seg # segs) ic =
     (case parseNode L h par seg ic of
        Inl e \<Rightarrow> (Inl e, h)
      | Inr (child, h1) \<Rightarrow>
          if segs = [] then (Inr child, h1[child := (h1 ! child)\<lparr>endpoint := True\<rparr>])
          else if wildcard (h1 ! child) then (Inl CantDefineAfterWildcard, h1)
          else defineNode L h1 child segs ic)"

definition segmentsOf :: "string \<Rightarrow> string list" where
  "segmentsOf pat =
     (let p1 = TrimPrefix pat ''/'';
          p2 = (case IndexRune p1 (CHR ''?'') of None \<Rightarrow> p1 | Some i \<Rightarrow> take i p1)
      in Split p2)"

definition Define :: "Lib \<Rightarrow> 'h Trie \<Rightarrow> string \<Rightarrow> (error + nat) \<times> 'h Trie" where
  "Define L t pat =
     (if Contains pat ''//'' then (Inl MultiSlashExist, t)
      else
        (case defineNode L (nodes t) (root t) (segmentsOf pat) (ignoreCase t) of
           (Inl e, h) \<Rightarrow> (Inl e, t\<lparr>nodes := h\<rparr>)
         | (Inr n, h) \<Rightarrow>
             (Inr n,
              t\<lparr>nodes := (if pattern (h ! n) = [] then h[n := (h ! n)\<lparr>pattern := pat\<rparr>] else h)\<rparr>)))"

section \<open>Match: resolving a path\<close>

text \<open>The body of the loop of \<open>matchNode\<close>: whether the loop returns this child (it
  does not \<open>continue\<close>).\<close>

definition varyAccepts :: "'h Node \<Rightarrow> string \<Rightarrow> bool" where
  "varyAccepts child seg =
     (if suffix child \<noteq> [] \<and> (seg = suffix child \<or> \<not> HasSuffix seg (suffix child)) then False
      else
        (let s1 = (if suffix child \<noteq> [] then slice seg 0 (length seg - length (suffix child))
                   else seg)
         in case regex child of None \<Rightarrow> True | Some r \<Rightarrow> MatchString r s1))"

fun matchVary :: "'h Node list \<Rightarrow> nat list \<Rightarrow> string \<Rightarrow> nat option" where
  "matchVary h [] seg = None"
| "matchVary h (c # cs) seg = (if varyAccepts (h ! c) seg then Some c else matchVary h cs seg)"

definition matchNode :: "'h Node list \<Rightarrow> nat \<Rightarrow> string \<Rightarrow> nat option" where
  "matchNode h par seg =
     (case getChild (h ! par) seg of
        Some c \<Rightarrow> Some c
      | None \<Rightarrow> matchVary h (varyChildren (h ! par)) seg)"

text \<open>The \<open>switch\<close> after the loop of \<open>Match\<close>.\<close>

definition matchEnd :: "'h Trie \<Rightarrow> string \<Rightarrow> int \<Rightarrow> nat \<Rightarrow> (string \<rightharpoonup> string) \<Rightarrow> Matched" where
  "matchEnd t path fixedLen par ps =
     (if endpoint (nodes t ! par) then
        (if fpr t \<and> 0 < fixedLen then \<lparr>Node = None, Params = ps, FPR = path, TSR = []\<rparr>
         else \<lparr>Node = Some par, Params = ps, FPR = [], TSR = []\<rparr>)
      else if tsr t \<and> getChild (nodes t ! par) [] \<noteq> None then
        (if fpr t \<and> 0 < fixedLen then
           \<lparr>Node = None, Params = ps, FPR = path @ ''/'', TSR = []\<rparr>
         else \<lparr>Node = None, Params = ps, FPR = [], TSR = path @ ''/''\<rparr>)
      else \<lparr>Node = None, Params = ps, FPR = [], TSR = []\<rparr>)"

text \<open>What \<open>Match\<close> returns when \<open>matchNode\<close> finds no child for a segment.\<close>

definition matchFail ::
  "'h Trie \<Rightarrow> string \<Rightarrow> int \<Rightarrow> nat \<Rightarrow> nat \<Rightarrow> string \<Rightarrow> (string \<rightharpoonup> string) \<Rightarrow> Matched" where
  "matchFail t path fixedLen par i seg ps =
     (if tsr t \<and> endpoint (nodes t ! par) \<and> i = length path \<and> seg = [] then
        (if fpr t \<and> 0 < fixedLen then
           \<lparr>Node = None, Params = ps, FPR = slice path 0 (length path - 1), TSR = []\<rparr>
         else \<lparr>Node = None, Params = ps, FPR = [], TSR = slice path 0 (length path - 1)\<rparr>)
      else \<lparr>Node = None, Params = ps, FPR = [], TSR = []\<rparr>)"

text \<open>
  The loop \<open>for i := 1; i <= end; i++\<close> of \<open>Match\<close>, with the loop variables \<open>i\<close>,
  \<open>start\<close>, \<open>parent\<close> and \<open>matched.Params\<close> as arguments. \<open>start \<le> i\<close> holds
  throughout, so \<open>path[start:i]\<close> is in range; \<open>segment[0 : len(segment)-len(suffix)]\<close>
  panics when the suffix is longer than the segment.
\<close>

function matchLoop ::
  "Lib \<Rightarrow> 'h Trie \<Rightarrow> string \<Rightarrow> int \<Rightarrow> nat \<Rightarrow> nat \<Rightarrow> nat \<Rightarrow> (string \<rightharpoonup> string)
     \<Rightarrow> error + Matched" where
  "matchLoop L t path fixedLen i start par ps =
     (if i \<le> length path then
        (if i < length path \<and> path ! i \<noteq> CHR ''/'' then
           matchLoop L t path fixedLen (i + 1) start par ps
         else
           (let seg = slice path start i;
                s1 = (if ignoreCase t then ToLower L seg else seg)
            in
            case matchNode (nodes t) par s1 of
              None \<Rightarrow> Inr (matchFail t path fixedLen par i seg ps)
            | Some n \<Rightarrow>
                if name (nodes t ! n) \<noteq> [] then
                  (if wildcard (nodes t ! n) then
                     Inr (matchEnd t path fixedLen n
                            (ps(name (nodes t ! n) \<mapsto> slice path start (length path))))
                   else if suffix (nodes t ! n) \<noteq> [] then
                     (if length seg < length (suffix (nodes t ! n)) then Inl SliceOutOfRange
                      else
                        matchLoop L t path fixedLen (i + 1) (i + 1) n
                          (ps(name (nodes t ! n) \<mapsto>
                                slice seg 0 (length seg - length (suffix (nodes t ! n))))))
                   else
                     matchLoop L t path fixedLen (i + 1) (i + 1) n
                       (ps(name (nodes t ! n) \<mapsto> seg)))
                else matchLoop L t path fixedLen (i + 1) (i + 1) n ps))
      else Inr (matchEnd t path fixedLen par ps))"
  by pat_completeness auto
termination
  by (relation "measure (\<lambda>(L, t, path, fixedLen, i, start, par, ps). Suc (length path) - i)") auto

declare matchLoop.simps [simp del]

definition Match :: "Lib \<Rightarrow> 'h Trie \<Rightarrow> string \<Rightarrow> error + Matched" where
  "Match L t path0 =
     (if path0 = [] \<or> hd path0 \<noteq> CHR ''/'' then Inl PathNotStartWithSlash
      else
        (let path = (if fpr t then fixPath path0 else path0);
             fixedLen = (if fpr t then int (length path0) - int (length path)
                         else int (length path0))
         in matchLoop L t path fixedLen 1 1 (root t) Map.empty))"

text \<open>The binding one round of the loop adds to \<open>matched.Params\<close> when it descends
  into a node that is not a named wildcard.\<close>

definition bindParam ::
  "'h Node \<Rightarrow> string \<Rightarrow> (string \<rightharpoonup> string) \<Rightarrow> (string \<rightharpoonup> string)" where
  "bindParam nd seg ps =
     (if name nd = [] then ps
      else if suffix nd \<noteq> [] then
        ps(name nd \<mapsto> slice seg 0 (length seg - length (suffix nd)))
      else ps(name nd \<mapsto> seg))"

section \<open>Handlers and the method router of \<open>mux.go\<close>\<close>

text \<open>
  A handler is an opaque value of type \<open>'h\<close>. The values of the map \<open>handlers\<close> are
  of type \<open>interface{}\<close>: \<open>'h option\<close>, where \<open>None\<close> is the nil interface. Reading
  the map at a key it does not have gives nil, so \<open>GetHandler\<close> is nil for a method
  that was never mounted and for a method mounted with a nil handler.
\<close>

definition GetHandler :: "'h Node \<Rightarrow> string \<Rightarrow> 'h option" where
  "GetHandler n method = (case handlers n method of None \<Rightarrow> None | Some v \<Rightarrow> v)"

definition GetAllow :: "'h Node \<Rightarrow> string" where
  "GetAllow n = allow n"

definition Handle ::
  "'h Node list \<Rightarrow> nat \<Rightarrow> string \<Rightarrow> 'h option \<Rightarrow> error + 'h Node list" where
  "Handle h n method handler =
     (if GetHandler (h ! n) method \<noteq> None then Inl AlreadyDefined
      else
        Inr (h[n := (h ! n)
          \<lparr>handlers := (handlers (h ! n))(method \<mapsto> handler),
           allow := (if allow (h ! n) = [] then method else allow (h ! n) @ '', '' @ method)\<rparr>]))"

record 'h Mux =
  trie :: "'h Trie"
  otherwise :: "'h option"

definition Mux_New :: "Options list \<Rightarrow> 'h Mux" where
  "Mux_New opts = \<lparr>trie = New opts, otherwise = None\<rparr>"

text \<open>\<open>Mux.Handle\<close>: the router after the call, with the panic if there was one. Its
  handler is a value of the function type \<open>mux.Handle\<close>, which is never the nil interface
  once it is converted to \<open>interface{}\<close>.\<close>

definition Mux_Handle ::
  "Lib \<Rightarrow> 'h Mux \<Rightarrow> string \<Rightarrow> string \<Rightarrow> 'h \<Rightarrow> error option \<times> 'h Mux" where
  "Mux_Handle L m method pat handler =
     (if method = [] then (Some InvalidMethod, m)
      else
        (case Define L (trie m) pat of
           (Inl e, t1) \<Rightarrow> (Some e, m\<lparr>trie := t1\<rparr>)
         | (Inr n, t1) \<Rightarrow>
             (case Handle (nodes t1) n (ToUpper L method) (Some handler) of
                Inl e \<Rightarrow> (Some e, m\<lparr>trie := t1\<rparr>)
              | Inr h \<Rightarrow> (None, m\<lparr>trie := t1\<lparr>nodes := h\<rparr>\<rparr>))))"

definition Mux_Get :: "Lib \<Rightarrow> 'h Mux \<Rightarrow> string \<Rightarrow> 'h \<Rightarrow> error option \<times> 'h Mux" where
  "Mux_Get L m pat handler = Mux_Handle L m ''GET'' pat handler"

definition Mux_Otherwise :: "'h Mux \<Rightarrow> 'h \<Rightarrow> 'h Mux" where
  "Mux_Otherwise m handler = m\<lparr>otherwise := Some handler\<rparr>"

text \<open>
  A request is its method and its URL path. What \<open>ServeHTTP\<close> does with the response
  writer is a value: the response it wrote, the redirect it asked \<open>http.Redirect\<close> for,
  or the handler it called with the captured parameters. A redirect is the request after
  the assignment to \<open>req.URL.Path\<close>, whose \<open>req.URL.String()\<close> the code hands to
  \<open>http.Redirect\<close>, and the status code. \<open>http.Error\<close> is the function of
  \<open>net/http\<close>: it sets the two headers, writes the status code and prints the message
  followed by a newline.
\<close>

record Request =
  Method :: string
  URLPath :: string

record Response =
  StatusCode :: nat
  Header :: "string \<rightharpoonup> string"
  Body :: string

datatype 'h Served =
    Replied Response
  | Redirected Request nat
  | Invoked 'h "string \<rightharpoonup> string"

definition newResponse :: Response where
  "newResponse = \<lparr>StatusCode = 0, Header = Map.empty, Body = []\<rparr>"

definition http_Error :: "Response \<Rightarrow> string \<Rightarrow> nat \<Rightarrow> Response" where
  "http_Error w msg code =
     w\<lparr>Header := (Header w)(''Content-Type'' \<mapsto> ''text/plain; charset=utf-8'',
                            ''X-Content-Type-Options'' \<mapsto> ''nosniff''),
       StatusCode := code,
       Body := Body w @ msg @ [CHR 0x0A]\<rparr>"

definition quoted :: "string \<Rightarrow> string" where
  "quoted s = CHR 0x22 # s @ [CHR 0x22]"

text \<open>
  Modelled from the spec: \<open>mux.go\<close> reads the fields \<open>Methods\<close> and \<open>AllowMethods\<close> of
  a matched node, which the \<open>Node\<close> of \<open>trie.go\<close> does not declare; they are taken to be
  its \<open>handlers\<close> and \<open>allow\<close>, as the spec's \<open>handlers[method]\<close> and \<open>node.allow\<close>.
  The type assertion \<open>.(Handle)\<close> fails on the nil interface, which is what
  \<open>GetHandler\<close> returns for a method without a handler.
\<close>

definition ServeHTTP :: "Lib \<Rightarrow> 'h Mux \<Rightarrow> Request \<Rightarrow> error + 'h Served" where
  "ServeHTTP L m req =
     (case Match L (trie m) (URLPath req) of
        Inl e \<Rightarrow> Inl e
      | Inr res \<Rightarrow>
          (case Node res of
             None \<Rightarrow>
               if TSR res \<noteq> [] \<or> FPR res \<noteq> [] then
                 Inr (Redirected
                        (req\<lparr>URLPath := (if FPR res \<noteq> [] then FPR res else TSR res)\<rparr>)
                        (if Method req \<noteq> ''GET'' then 307 else 301))
               else
                 (case otherwise m of
                    None \<Rightarrow>
                      Inr (Replied (http_Error newResponse
                             (quoted (URLPath req) @ '' not implemented'') 501))
                  | Some handler \<Rightarrow> Inr (Invoked handler (Params res)))
           | Some n \<Rightarrow>
               (case GetHandler (nodes (trie m) ! n) (Method req) of
                  Some handler \<Rightarrow> Inr (Invoked handler (Params res))
                | None \<Rightarrow>
                    if Method req = ''OPTIONS'' then
                      Inr (Replied (newResponse
                             \<lparr>Header := [''Allow'' \<mapsto> allow (nodes (trie m) ! n)],
                              StatusCode := 204\<rparr>))
                    else
                      (case otherwise m of
                         None \<Rightarrow>
                           Inr (Replied (http_Error
                                  (newResponse
                                     \<lparr>Header := [''Allow'' \<mapsto> allow (nodes (trie m) ! n)]\<rparr>)
                                  (quoted (Method req) @ '' not allowed in '' @
                                     quoted (URLPath req)) 405))
                       | Some handler \<Rightarrow> Inr (Invoked handler (Params res))))))"

section \<open>Sequences of calls and the scenarios of the specification\<close>

text \<open>A sequence of \<open>Define\<close> calls on one trie; a call that panics is recovered and
  the next call sees the trie as the panic left it.\<close>

definition Defines :: "Lib \<Rightarrow> 'h Trie \<Rightarrow> string list \<Rightarrow> 'h Trie" where
  "Defines L t pats = foldl (\<lambda>t1 pat. snd (Define L t1 pat)) t pats"

text \<open>A regular expression library for the concrete scenarios: it compiles the
  expressions made of letters and digits only, which match the strings that contain
  them, as they do in Go.\<close>

definition literal_rx :: "string \<Rightarrow> (string \<Rightarrow> bool) option" where
  "literal_rx src =
     (if list_all (\<lambda>c. c \<in> set alnum_chars) src then Some (\<lambda>s. Contains s src) else None)"

definition goLib :: Lib where
  "goLib = ascii_lib literal_rx"

text \<open>Setup S5: defaults, \<open>/abc/efg\<close> and \<open>/abc/xyz/\<close> defined. Setup S1: defaults,
  \<open>/:type\<close> defined. Setup S7: a method router with defaults and \<open>GET /abc\<close>.\<close>

definition S5_trie :: "'h Trie" where
  "S5_trie = Defines goLib (New []) [''/abc/efg'', ''/abc/xyz/'']"

definition S1_trie :: "'h Trie" where
  "S1_trie = Defines goLib (New []) [''/:type'']"

definition S7_mux :: "'h \<Rightarrow> 'h Mux" where
  "S7_mux handler = snd (Mux_Get goLib (Mux_New []) ''/abc'' handler)"

text \<open>The trie of the last block of the test \<open>TrailingSlashRedirect option\<close> in
  \<open>trie_test.go\<close>: only \<open>TrailingSlashRedirect\<close> enabled, \<open>/abc/:name\<close> and \<open>/abc\<close>
  defined.\<close>

definition tsrTest_trie :: "'h Trie" where
  "tsrTest_trie =
     Defines goLib
       (New [\<lparr>IgnoreCase = False, FixedPathRedirect = False, TrailingSlashRedirect = True\<rparr>])
       [''/abc/:name'', ''/abc'']"

section \<open>Notions of the specification\<close>

text \<open>
  What claim C5 calls a segment of a path and the bytes a node captures from it:
  \<open>isSegment path st e\<close> says that \<open>path[st:e]\<close> lies between two slashes (or a slash
  and the end of the path) and holds no slash; \<open>captureOf\<close> is the segment without its
  last \<open>len(suffix)\<close> bytes for a node with a suffix, everything from the start of the
  segment to the end of the path for a wildcard, and the segment otherwise.
\<close>

definition isSegment :: "string \<Rightarrow> nat \<Rightarrow> nat \<Rightarrow> bool" where
  "isSegment path st e =
     (0 < st \<and> st \<le> e \<and> e \<le> length path \<and> path ! (st - 1) = CHR ''/'' \<and>
      (e = length path \<or> path ! e = CHR ''/'') \<and> CHR ''/'' \<notin> set (slice path st e))"

definition captureOf :: "'h Node \<Rightarrow> string \<Rightarrow> nat \<Rightarrow> nat \<Rightarrow> string" where
  "captureOf nd path st e =
     (if wildcard nd then drop st path
      else if suffix nd \<noteq> [] then
        take (length (slice path st e) - length (suffix nd)) (slice path st e)
      else slice path st e)"

text \<open>
  A descent: a list of steps \<open>(e, n)\<close>, one for each segment in the order of the path.
  The first step starts at \<open>st\<close> under the node \<open>par\<close>; a step \<open>(e, n)\<close> that starts
  at \<open>st\<close> covers the segment \<open>path[st:e]\<close>, its node \<open>n\<close> is the child that
  \<open>matchNode\<close> selects under the node of the step before for the key of that segment
  (the segment, lower-cased when \<open>ignoreCase\<close> is set), and the next step starts at
  \<open>e + 1\<close> under \<open>n\<close>. \<open>capturesOf\<close> are the bindings of a descent: every step into a
  named node binds the node's name to what the node captures from the segment of that
  step, a later step overriding an earlier one of the same name.
\<close>

fun descends :: "Lib \<Rightarrow> 'h Trie \<Rightarrow> string \<Rightarrow> nat \<Rightarrow> nat \<Rightarrow> (nat \<times> nat) list \<Rightarrow> bool" where
  "descends L t path par st [] = True"
| "descends L t path par st ((e, n) # rest) =
     (isSegment path st e \<and>
      matchNode (nodes t) par
        (if ignoreCase t then ToLower L (slice path st e) else slice path st e) = Some n \<and>
      descends L t path n (e + 1) rest)"

fun capturesOf ::
  "'h Trie \<Rightarrow> string \<Rightarrow> nat \<Rightarrow> (nat \<times> nat) list \<Rightarrow> (string \<rightharpoonup> string) \<Rightarrow> (string \<rightharpoonup> string)" where
  "capturesOf t path st [] ps = ps"
| "capturesOf t path st ((e, n) # rest) ps =
     capturesOf t path (e + 1) rest
       (if name (nodes t ! n) = [] then ps
        else ps(name (nodes t ! n) \<mapsto> captureOf (nodes t ! n) path st e))"

text \<open>The invariant of the loop of \<open>Match\<close> behind claim C5, and what it gives for the
  result: the loop variables are those of a descent from the root.\<close>

definition descentInv ::
  "Lib \<Rightarrow> 'h Trie \<Rightarrow> string \<Rightarrow> nat \<Rightarrow> nat \<Rightarrow> nat \<Rightarrow> (string \<rightharpoonup> string) \<Rightarrow> bool" where
  "descentInv L t path i st par ps =
     (path \<noteq> [] \<and> 0 < st \<and> st \<le> i \<and>
      (i \<le> length path \<longrightarrow> path ! (st - 1) = CHR ''/'') \<and>
      (length path < i \<longrightarrow> st = i) \<and>
      (\<forall>k. st \<le> k \<and> k < i \<longrightarrow> path ! k \<noteq> CHR ''/'') \<and>
      (\<exists>steps. descends L t path (root t) 1 steps \<and>
         ps = capturesOf t path 1 steps Map.empty \<and>
         par = (if steps = [] then root t else snd (last steps)) \<and>
         st = (if steps = [] then 1 else fst (last steps) + 1)))"

definition descentOK :: "Lib \<Rightarrow> 'h Trie \<Rightarrow> string \<Rightarrow> Matched \<Rightarrow> bool" where
  "descentOK L t path m =
     (\<exists>steps. descends L t path (root t) 1 steps \<and>
        Params m = capturesOf t path 1 steps Map.empty \<and>
        (\<forall>n. Node m = Some n \<longrightarrow>
           steps \<noteq> [] \<and> n = snd (last steps) \<and>
           (fst (last steps) = length path \<or>
            (name (nodes t ! n) \<noteq> [] \<and> wildcard (nodes t ! n)))))"

text \<open>A trie for claim C5, case ignored: a parameter with a suffix under a literal, two
  parameters in a row, and a wildcard under a literal.\<close>

definition capTest_trie :: "'h Trie" where
  "capTest_trie = Defines goLib (New []) [''/api/:ID+:cancel'', ''/:a/:b'', ''/files/:rest*'']"

text \<open>Tries for claim C4: one pattern defined with \<open>IgnoreCase\<close> on or off.\<close>

definition caseTest_trie :: "bool \<Rightarrow> string \<Rightarrow> 'h Trie" where
  "caseTest_trie ic pat =
     Defines goLib
       (New [\<lparr>IgnoreCase = ic, FixedPathRedirect = True, TrailingSlashRedirect = True\<rparr>])
       [pat]"

section \<open>Evaluating the scenarios\<close>

lemmas string_defs =
  Let_def HasPrefix_def HasSuffix_def TrimPrefix_def slice_def wordReg_def word_char_def
  path_char_def alnum_chars_def doubleColonReg_def fixPath_def quoted_def

lemmas lib_defs =
  goLib_def ascii_lib_def literal_rx_def ascii_lower_def ascii_upper_def upper_chars_def
  lower_chars_def

lemmas define_defs =
  Defines_def Define_def segmentsOf_def New_def defaultOptions_def newNode_def
  parseNode_def literalKey_def parseNamed_def getChild_def parseVary_def finishVary_def
  sameRegex_def attachChild_def
  attachVary_def SliceStable_def varyLess_def

lemmas match_defs =
  Match_def matchLoop.simps matchNode_def varyAccepts_def matchEnd_def matchFail_def

lemmas mux_defs =
  Mux_New_def Mux_Get_def Mux_Handle_def Handle_def GetHandler_def ServeHTTP_def
  http_Error_def newResponse_def

lemma S5_define_first: "fst (Define goLib (New []) ''/abc/efg'') = Inr 2"
  by (simp add: string_defs lib_defs define_defs)

lemma S5_define_second:
  "fst (Define goLib (snd (Define goLib (New []) ''/abc/efg'')) ''/abc/xyz/'') = Inr 4"
  by (simp add: string_defs lib_defs define_defs)

lemma S5_efg_slash:
  "Match goLib S5_trie ''/abc/efg/'' =
     Inr \<lparr>Node = None, Params = Map.empty, FPR = [], TSR = ''/abc/efg''\<rparr>"
  by (simp add: S5_trie_def string_defs lib_defs define_defs match_defs)

lemma S5_double_efg:
  "Match goLib S5_trie ''/abc//efg'' =
     Inr \<lparr>Node = None, Params = Map.empty, FPR = ''/abc/efg'', TSR = []\<rparr>"
  by (simp add: S5_trie_def string_defs lib_defs define_defs match_defs)

lemma S5_double_efg_slash:
  "Match goLib S5_trie ''/abc//efg/'' =
     Inr \<lparr>Node = None, Params = Map.empty, FPR = ''/abc/efg'', TSR = []\<rparr>"
  by (simp add: S5_trie_def string_defs lib_defs define_defs match_defs)

lemma S5_xyz:
  "Match goLib S5_trie ''/abc/xyz'' =
     Inr \<lparr>Node = None, Params = Map.empty, FPR = [], TSR = ''/abc/xyz/''\<rparr>"
  by (simp add: S5_trie_def string_defs lib_defs define_defs match_defs)

lemma S5_double_xyz:
  "Match goLib S5_trie ''/abc//xyz'' =
     Inr \<lparr>Node = None, Params = Map.empty, FPR = ''/abc/xyz/'', TSR = []\<rparr>"
  by (simp add: S5_trie_def string_defs lib_defs define_defs match_defs)

text \<open>
  Claim C1. On a trie with the default options and exactly the patterns \<open>/abc/efg\<close> and
  \<open>/abc/xyz/\<close> (both \<open>Define\<close> calls return a node), \<open>Match\<close> returns no node and:
  for \<open>/abc/efg/\<close> the redirect \<open>TSR = /abc/efg\<close>; for \<open>/abc//efg\<close> the redirect
  \<open>FPR = /abc/efg\<close>; for \<open>/abc//efg/\<close> the redirect \<open>FPR = /abc/efg\<close> and an empty
  \<open>TSR\<close>; for \<open>/abc/xyz\<close> the redirect \<open>TSR = /abc/xyz/\<close>; for \<open>/abc//xyz\<close> the
  redirect \<open>FPR = /abc/xyz/\<close>.
\<close>

theorem C1_S5_redirects:
  "fst (Define goLib (New [] :: 'h Trie) ''/abc/efg'') = Inr 2 \<and>
   fst (Define goLib (snd (Define goLib (New [] :: 'h Trie) ''/abc/efg'')) ''/abc/xyz/'') = Inr 4 \<and>
   Match goLib (S5_trie :: 'h Trie) ''/abc/efg/'' =
     Inr \<lparr>Node = None, Params = Map.empty, FPR = [], TSR = ''/abc/efg''\<rparr> \<and>
   Match goLib (S5_trie :: 'h Trie) ''/abc//efg'' =
     Inr \<lparr>Node = None, Params = Map.empty, FPR = ''/abc/efg'', TSR = []\<rparr> \<and>
   Match goLib (S5_trie :: 'h Trie) ''/abc//efg/'' =
     Inr \<lparr>Node = None, Params = Map.empty, FPR = ''/abc/efg'', TSR = []\<rparr> \<and>
   Match goLib (S5_trie :: 'h Trie) ''/abc/xyz'' =
     Inr \<lparr>Node = None, Params = Map.empty, FPR = [], TSR = ''/abc/xyz/''\<rparr> \<and>
   Match goLib (S5_trie :: 'h Trie) ''/abc//xyz'' =
     Inr \<lparr>Node = None, Params = Map.empty, FPR = ''/abc/xyz/'', TSR = []\<rparr>"
  by (intro conjI S5_define_first S5_define_second S5_efg_slash S5_double_efg
      S5_double_efg_slash S5_xyz S5_double_xyz)

theorem C1_S5_redirects_witness:
  "(case Match goLib (S5_trie :: unit Trie) ''/abc//efg/'' of
      Inl e \<Rightarrow> False
    | Inr m \<Rightarrow> Node m = None \<and> FPR m = ''/abc/efg'' \<and> TSR m = [])"
  using C1_S5_redirects [where ?'h = unit] by simp

lemma S1_define: "fst (Define goLib (New [] :: 'h Trie) ''/:type'') = Inr 1"
  by (simp add: string_defs lib_defs define_defs)

lemma S1_users:
  "Match goLib (S1_trie :: 'h Trie) ''/users'' =
     Inr \<lparr>Node = Some 1, Params = [''type'' \<mapsto> ''users''], FPR = [], TSR = []\<rparr>"
  by (simp add: S1_trie_def string_defs lib_defs define_defs match_defs)

lemma S1_root:
  "Match goLib (S1_trie :: 'h Trie) ''/'' =
     Inr \<lparr>Node = Some 1, Params = [''type'' \<mapsto> []], FPR = [], TSR = []\<rparr>"
  by (simp add: S1_trie_def string_defs lib_defs define_defs match_defs)

lemma tsrTest_abc_slash:
  "Match goLib (tsrTest_trie :: 'h Trie) ''/abc/'' =
     Inr \<lparr>Node = Some 2, Params = [''name'' \<mapsto> []], FPR = [], TSR = []\<rparr>"
  by (simp add: tsrTest_trie_def string_defs lib_defs define_defs match_defs)

text \<open>
  Claim C3. With the default options and exactly \<open>/:type\<close> defined, \<open>Match("/users")\<close>
  returns the endpoint of \<open>/:type\<close> (node 1) with \<open>Params = {type: "users"}\<close>. The
  claim's second half, that \<open>Match("/")\<close> returns no match, is not what the code does:
  the loop of \<open>matchNode\<close> has no test for an empty segment, so the parametric child
  accepts it and \<open>Match("/")\<close> returns the same endpoint with \<open>type\<close> bound to the empty
  string. The same happens on the trie of \<open>trie_test.go\<close> where the test expects no node
  for \<open>/abc/\<close>.
\<close>

theorem C3_empty_segment_is_captured:
  "fst (Define goLib (New [] :: 'h Trie) ''/:type'') = Inr 1 \<and>
   Match goLib (S1_trie :: 'h Trie) ''/users'' =
     Inr \<lparr>Node = Some 1, Params = [''type'' \<mapsto> ''users''], FPR = [], TSR = []\<rparr> \<and>
   Match goLib (S1_trie :: 'h Trie) ''/'' =
     Inr \<lparr>Node = Some 1, Params = [''type'' \<mapsto> []], FPR = [], TSR = []\<rparr> \<and>
   Match goLib (tsrTest_trie :: 'h Trie) ''/abc/'' =
     Inr \<lparr>Node = Some 2, Params = [''name'' \<mapsto> []], FPR = [], TSR = []\<rparr>"
  by (intro conjI S1_define S1_users S1_root tsrTest_abc_slash)

theorem C3_empty_segment_is_captured_witness:
  "(case Match goLib (S1_trie :: unit Trie) ''/'' of
      Inl e \<Rightarrow> False
    | Inr m \<Rightarrow> Node m = Some 1 \<and> Params m ''type'' = Some [])"
  using C3_empty_segment_is_captured [where ?'h = unit] by simp

lemma S7_get: "fst (Mux_Get goLib (Mux_New []) ''/abc'' (handler :: 'h)) = None"
  by (simp add: string_defs lib_defs define_defs mux_defs)

lemma S7_put:
  "ServeHTTP goLib (S7_mux (handler :: 'h)) \<lparr>Method = ''PUT'', URLPath = ''/abc''\<rparr> =
     Inr (Replied
       \<lparr>StatusCode = 405,
        Header = [''Allow'' \<mapsto> ''GET'', ''Content-Type'' \<mapsto> ''text/plain; charset=utf-8'',
                  ''X-Content-Type-Options'' \<mapsto> ''nosniff''],
        Body = CHR 0x22 # ''PUT'' @ CHR 0x22 # '' not allowed in '' @
               CHR 0x22 # ''/abc'' @ CHR 0x22 # [CHR 0x0A]\<rparr>)"
  by (simp add: S7_mux_def string_defs lib_defs define_defs match_defs mux_defs)

lemma S7_options:
  "ServeHTTP goLib (S7_mux (handler :: 'h)) \<lparr>Method = ''OPTIONS'', URLPath = ''/abc''\<rparr> =
     Inr (Replied \<lparr>StatusCode = 204, Header = [''Allow'' \<mapsto> ''GET''], Body = []\<rparr>)"
  by (simp add: S7_mux_def string_defs lib_defs define_defs match_defs mux_defs)

lemma S7_root:
  "ServeHTTP goLib (S7_mux (handler :: 'h)) \<lparr>Method = ''GET'', URLPath = ''/''\<rparr> =
     Inr (Replied
       \<lparr>StatusCode = 501,
        Header = [''Content-Type'' \<mapsto> ''text/plain; charset=utf-8'',
                  ''X-Content-Type-Options'' \<mapsto> ''nosniff''],
        Body = CHR 0x22 # ''/'' @ CHR 0x22 # '' not implemented'' @ [CHR 0x0A]\<rparr>)"
  by (simp add: S7_mux_def string_defs lib_defs define_defs match_defs mux_defs)

text \<open>
  Claim C9, as stated, gives the bodies of the 405 and the 501 response without the
  newline that \<open>http.Error\<close> prints after the message. Below, \<open>CHR 0x22\<close> is the double
  quote and \<open>CHR 0x0A\<close> the newline. The router of the claim answers \<open>PUT /abc\<close> with
  status 405 and \<open>Allow: GET\<close>, and \<open>GET /\<close> with status 501, but neither body is the
  message alone: each is the message followed by a newline.
\<close>

theorem C9_bodies_end_with_newline_counterexample:
  "(case ServeHTTP goLib (S7_mux ()) \<lparr>Method = ''PUT'', URLPath = ''/abc''\<rparr> of
      Inr (Replied w) \<Rightarrow>
        StatusCode w = 405 \<and> Header w ''Allow'' = Some ''GET'' \<and>
        Body w \<noteq> CHR 0x22 # ''PUT'' @ CHR 0x22 # '' not allowed in '' @
                   CHR 0x22 # ''/abc'' @ [CHR 0x22] \<and>
        Body w = (CHR 0x22 # ''PUT'' @ CHR 0x22 # '' not allowed in '' @
                   CHR 0x22 # ''/abc'' @ [CHR 0x22]) @ [CHR 0x0A]
    | _ \<Rightarrow> False) \<and>
   (case ServeHTTP goLib (S7_mux ()) \<lparr>Method = ''GET'', URLPath = ''/''\<rparr> of
      Inr (Replied w) \<Rightarrow>
        StatusCode w = 501 \<and>
        Body w \<noteq> CHR 0x22 # ''/'' @ CHR 0x22 # '' not implemented'' \<and>
        Body w = (CHR 0x22 # ''/'' @ CHR 0x22 # '' not implemented'') @ [CHR 0x0A]
    | _ \<Rightarrow> False)"
  by (simp add: S7_put S7_root)

text \<open>
  Claim C9, amended. A method router with the default options, no fallback and exactly
  \<open>GET /abc\<close> registered (the registration does not panic) answers \<open>PUT /abc\<close> with
  status 405, the header \<open>Allow: GET\<close>, the two headers of \<open>http.Error\<close> and the body
  \<open>"PUT" not allowed in "/abc"\<close> followed by a newline; \<open>OPTIONS /abc\<close> with status
  204, the header \<open>Allow: GET\<close> and an empty body; \<open>GET /\<close> with status 501, the two
  headers of \<open>http.Error\<close> and the body \<open>"/" not implemented\<close> followed by a newline.
  The bodies are written out byte by byte.
\<close>

theorem C9_method_router_responses:
  "fst (Mux_Get goLib (Mux_New []) ''/abc'' (handler :: 'h)) = None \<and>
   ServeHTTP goLib (S7_mux handler) \<lparr>Method = ''PUT'', URLPath = ''/abc''\<rparr> =
     Inr (Replied
       \<lparr>StatusCode = 405,
        Header = [''Allow'' \<mapsto> ''GET'', ''Content-Type'' \<mapsto> ''text/plain; charset=utf-8'',
                  ''X-Content-Type-Options'' \<mapsto> ''nosniff''],
        Body = CHR 0x22 # ''PUT'' @ CHR 0x22 # '' not allowed in '' @
               CHR 0x22 # ''/abc'' @ CHR 0x22 # [CHR 0x0A]\<rparr>) \<and>
   ServeHTTP goLib (S7_mux handler) \<lparr>Method = ''OPTIONS'', URLPath = ''/abc''\<rparr> =
     Inr (Replied \<lparr>StatusCode = 204, Header = [''Allow'' \<mapsto> ''GET''], Body = []\<rparr>) \<and>
   ServeHTTP goLib (S7_mux handler) \<lparr>Method = ''GET'', URLPath = ''/''\<rparr> =
     Inr (Replied
       \<lparr>StatusCode = 501,
        Header = [''Content-Type'' \<mapsto> ''text/plain; charset=utf-8'',
                  ''X-Content-Type-Options'' \<mapsto> ''nosniff''],
        Body = CHR 0x22 # ''/'' @ CHR 0x22 # '' not implemented'' @ [CHR 0x0A]\<rparr>)"
  by (intro conjI S7_get S7_put S7_options S7_root)

theorem C9_method_router_responses_witness:
  "(case ServeHTTP goLib (S7_mux ()) \<lparr>Method = ''PUT'', URLPath = ''/abc''\<rparr> of
      Inr (Replied w) \<Rightarrow>
        StatusCode w = 405 \<and> Header w ''Allow'' = Some ''GET'' \<and>
        Body w = CHR 0x22 # ''PUT'' @ CHR 0x22 # '' not allowed in '' @
                 CHR 0x22 # ''/abc'' @ CHR 0x22 # [CHR 0x0A]
    | _ \<Rightarrow> False) \<and>
   (case ServeHTTP goLib (S7_mux ()) \<lparr>Method = ''OPTIONS'', URLPath = ''/abc''\<rparr> of
      Inr (Replied w) \<Rightarrow>
        StatusCode w = 204 \<and> Header w ''Allow'' = Some ''GET'' \<and> Body w = []
    | _ \<Rightarrow> False) \<and>
   (case ServeHTTP goLib (S7_mux ()) \<lparr>Method = ''GET'', URLPath = ''/''\<rparr> of
      Inr (Replied w) \<Rightarrow>
        StatusCode w = 501 \<and>
        Body w = CHR 0x22 # ''/'' @ CHR 0x22 # '' not implemented'' @ [CHR 0x0A]
    | _ \<Rightarrow> False)"
  using C9_method_router_responses [where ?'h = unit and handler = "()"] by simp

section \<open>The loop of Match\<close>

lemma matchLoop_done:
  "\<not> i \<le> length path \<Longrightarrow>
   matchLoop L t path fl i st par ps = Inr (matchEnd t path fl par ps)"
  by (subst matchLoop.simps) simp

lemma matchLoop_skip:
  "i \<le> length path \<Longrightarrow> i < length path \<and> path ! i \<noteq> CHR ''/'' \<Longrightarrow>
   matchLoop L t path fl i st par ps = matchLoop L t path fl (i + 1) st par ps"
  by (subst matchLoop.simps) simp

lemma matchLoop_none:
  assumes "i \<le> length path" and "\<not> (i < length path \<and> path ! i \<noteq> CHR ''/'')"
    and "matchNode (nodes t) par
           (if ignoreCase t then ToLower L (slice path st i) else slice path st i) = None"
  shows "matchLoop L t path fl i st par ps =
           Inr (matchFail t path fl par i (slice path st i) ps)"
  by (subst matchLoop.simps) (simp only: assms if_True if_False Let_def option.case)

lemma matchLoop_some:
  assumes "i \<le> length path" and "\<not> (i < length path \<and> path ! i \<noteq> CHR ''/'')"
    and "matchNode (nodes t) par
           (if ignoreCase t then ToLower L (slice path st i) else slice path st i) = Some n"
  shows "matchLoop L t path fl i st par ps =
     (if name (nodes t ! n) \<noteq> [] then
        (if wildcard (nodes t ! n) then
           Inr (matchEnd t path fl n
                  (ps(name (nodes t ! n) \<mapsto> slice path st (length path))))
         else if suffix (nodes t ! n) \<noteq> [] then
           (if length (slice path st i) < length (suffix (nodes t ! n)) then
              Inl SliceOutOfRange
            else
              matchLoop L t path fl (i + 1) (i + 1) n
                (ps(name (nodes t ! n) \<mapsto>
                      slice (slice path st i) 0
                        (length (slice path st i) - length (suffix (nodes t ! n))))))
         else
           matchLoop L t path fl (i + 1) (i + 1) n
             (ps(name (nodes t ! n) \<mapsto> slice path st i)))
      else matchLoop L t path fl (i + 1) (i + 1) n ps)"
  by (subst matchLoop.simps) (simp only: assms if_True if_False Let_def option.case)

text \<open>
  A proof rule for the loop: an invariant \<open>I\<close> of the loop variables that every round
  keeps, and a property \<open>Q\<close> of the result that holds at each of the places where the
  loop returns.
\<close>

lemma matchLoop_rule:
  assumes I0: "I i st par ps"
    and skip: "\<And>i st par ps. I i st par ps \<Longrightarrow> i < length path \<Longrightarrow> path ! i \<noteq> CHR ''/'' \<Longrightarrow>
                 I (i + 1) st par ps"
    and fail: "\<And>i st par ps. I i st par ps \<Longrightarrow> i \<le> length path \<Longrightarrow>
                 \<not> (i < length path \<and> path ! i \<noteq> CHR ''/'') \<Longrightarrow>
                 matchNode (nodes t) par
                   (if ignoreCase t then ToLower L (slice path st i) else slice path st i) = None \<Longrightarrow>
                 Q (Inr (matchFail t path fl par i (slice path st i) ps))"
    and wild: "\<And>i st par ps n. I i st par ps \<Longrightarrow> i \<le> length path \<Longrightarrow>
                 \<not> (i < length path \<and> path ! i \<noteq> CHR ''/'') \<Longrightarrow>
                 matchNode (nodes t) par
                   (if ignoreCase t then ToLower L (slice path st i) else slice path st i) = Some n \<Longrightarrow>
                 name (nodes t ! n) \<noteq> [] \<Longrightarrow> wildcard (nodes t ! n) \<Longrightarrow>
                 Q (Inr (matchEnd t path fl n
                          (ps(name (nodes t ! n) \<mapsto> slice path st (length path)))))"
    and step: "\<And>i st par ps n. I i st par ps \<Longrightarrow> i \<le> length path \<Longrightarrow>
                 \<not> (i < length path \<and> path ! i \<noteq> CHR ''/'') \<Longrightarrow>
                 matchNode (nodes t) par
                   (if ignoreCase t then ToLower L (slice path st i) else slice path st i) = Some n \<Longrightarrow>
                 \<not> (name (nodes t ! n) \<noteq> [] \<and> wildcard (nodes t ! n)) \<Longrightarrow>
                 \<not> (name (nodes t ! n) \<noteq> [] \<and> suffix (nodes t ! n) \<noteq> [] \<and>
                    length (slice path st i) < length (suffix (nodes t ! n))) \<Longrightarrow>
                 I (i + 1) (i + 1) n (bindParam (nodes t ! n) (slice path st i) ps)"
    and fin: "\<And>i st par ps. I i st par ps \<Longrightarrow> \<not> i \<le> length path \<Longrightarrow>
                 Q (Inr (matchEnd t path fl par ps))"
    and err: "Q (Inl SliceOutOfRange)"
  shows "Q (matchLoop L t path fl i st par ps)"
  using I0
proof (induction "Suc (length path) - i" arbitrary: i st par ps rule: less_induct)
  case less
  note inv = less.prems
  show ?case
  proof (cases "i \<le> length path")
    case False
    then show ?thesis using fin [OF inv] by (simp add: matchLoop_done)
  next
    case le: True
    then have dec: "Suc (length path) - (i + 1) < Suc (length path) - i" by simp
    show ?thesis
    proof (cases "i < length path \<and> path ! i \<noteq> CHR ''/''")
      case True
      have "I (i + 1) st par ps" using skip [OF inv] True by simp
      from less.hyps [OF dec this] show ?thesis
        by (simp only: matchLoop_skip [OF le True])
    next
      case nsl: False
      let ?seg = "slice path st i"
      let ?s1 = "if ignoreCase t then ToLower L ?seg else ?seg"
      show ?thesis
      proof (cases "matchNode (nodes t) par ?s1")
        case None
        then show ?thesis
          using fail [OF inv le nsl] by (simp only: matchLoop_none [OF le nsl None])
      next
        case (Some n)
        let ?nd = "nodes t ! n"
        note eq = matchLoop_some [OF le nsl Some, of fl ps]
        show ?thesis
        proof (cases "name ?nd \<noteq> [] \<and> wildcard ?nd")
          case True
          then show ?thesis using wild [OF inv le nsl Some] eq by simp
        next
          case nw: False
          show ?thesis
          proof (cases "name ?nd \<noteq> [] \<and> suffix ?nd \<noteq> [] \<and> length ?seg < length (suffix ?nd)")
            case True
            then show ?thesis using nw eq err by auto
          next
            case ok: False
            from less.hyps [OF dec step [OF inv le nsl Some nw ok]]
            show ?thesis using nw ok eq by (auto simp: bindParam_def)
          qed
        qed
      qed
    qed
  qed
qed


lemma Params_matchEnd [simp]: "Params (matchEnd t path fl par ps) = ps"
  by (simp add: matchEnd_def)

lemma Params_matchFail [simp]: "Params (matchFail t path fl par i seg ps) = ps"
  by (simp add: matchFail_def)

lemma matchLoop_outcome:
  assumes "matchLoop L t path fl i st par ps = Inr m"
  shows "(Node m \<noteq> None \<longrightarrow> FPR m = [] \<and> TSR m = []) \<and> \<not> (FPR m \<noteq> [] \<and> TSR m \<noteq> [])"
proof -
  let ?Q = "\<lambda>r. \<forall>m. r = Inr m \<longrightarrow>
     (Node m \<noteq> None \<longrightarrow> FPR m = [] \<and> TSR m = []) \<and> \<not> (FPR m \<noteq> [] \<and> TSR m \<noteq> [])"
  have "?Q (matchLoop L t path fl i st par ps)"
    by (rule matchLoop_rule [where I = "\<lambda>i st par ps. True"])
       (simp_all add: matchEnd_def matchFail_def)
  with assms show ?thesis by blast
qed

lemma S5_efg:
  "Match goLib (S5_trie :: 'h Trie) ''/abc/efg'' =
     Inr \<lparr>Node = Some 2, Params = Map.empty, FPR = [], TSR = []\<rparr>"
  by (simp add: S5_trie_def string_defs lib_defs define_defs match_defs)

text \<open>
  Claim C10. For every trie, whatever its options, and every path on which \<open>Match\<close>
  returns, the result has at most one of its three outcome fields set: if \<open>Node\<close> is
  not nil then \<open>FPR\<close> and \<open>TSR\<close> are both empty, and \<open>FPR\<close> and \<open>TSR\<close> are never both
  non-empty.
\<close>

theorem C10_at_most_one_outcome:
  assumes "Match L t path = Inr m"
  shows "(Node m \<noteq> None \<longrightarrow> FPR m = [] \<and> TSR m = []) \<and> \<not> (FPR m \<noteq> [] \<and> TSR m \<noteq> [])"
proof -
  from assms obtain p fl where "matchLoop L t p fl 1 1 (root t) Map.empty = Inr m"
    by (auto simp: Match_def Let_def split: if_splits)
  then show ?thesis by (rule matchLoop_outcome)
qed

theorem C10_at_most_one_outcome_witness:
  "Match goLib (S5_trie :: unit Trie) ''/abc/efg'' =
     Inr \<lparr>Node = Some 2, Params = Map.empty, FPR = [], TSR = []\<rparr> \<and>
   Node \<lparr>Node = Some 2, Params = Map.empty, FPR = [], TSR = []\<rparr> \<noteq> None \<and>
   FPR \<lparr>Node = Some 2, Params = Map.empty, FPR = [], TSR = []\<rparr> = [] \<and>
   TSR \<lparr>Node = Some 2, Params = Map.empty, FPR = [], TSR = []\<rparr> = []"
  using C10_at_most_one_outcome [OF S5_efg [where ?'h = unit]] S5_efg [where ?'h = unit]
  by simp

section \<open>Captured parameters\<close>

lemma hd_multiSlash_Replace: "p \<noteq> [] \<Longrightarrow> hd (multiSlash_Replace p) = hd p"
  by (induction p rule: multiSlash_Replace.induct) auto

lemma multiSlash_Replace_nonempty: "p \<noteq> [] \<Longrightarrow> multiSlash_Replace p \<noteq> []"
  by (induction p rule: multiSlash_Replace.induct) auto

lemma fixPath_head: "p \<noteq> [] \<Longrightarrow> hd p = CHR ''/'' \<Longrightarrow> fixPath p \<noteq> [] \<and> fixPath p ! 0 = CHR ''/''"
  by (simp add: fixPath_def hd_multiSlash_Replace multiSlash_Replace_nonempty hd_conv_nth [symmetric])

lemma slice_avoids:
  assumes "e \<le> length p" and "\<forall>k. st \<le> k \<and> k < e \<longrightarrow> p ! k \<noteq> c"
  shows "c \<notin> set (slice p st e)"
proof
  assume "c \<in> set (slice p st e)"
  then obtain j where j: "j < length (slice p st e)" "slice p st e ! j = c"
    by (auto simp: in_set_conv_nth)
  then have "j < e - st" and "p ! (st + j) = c"
    using assms(1) by (auto simp: slice_def)
  then have "st \<le> st + j \<and> st + j < e" and "p ! (st + j) = c" by auto
  with assms(2) show False by blast
qed

lemma descends_snoc:
  "descends L t path par st (steps @ [(e, n)]) \<longleftrightarrow>
     descends L t path par st steps \<and>
     isSegment path (if steps = [] then st else fst (last steps) + 1) e \<and>
     matchNode (nodes t) (if steps = [] then par else snd (last steps))
       (if ignoreCase t
        then ToLower L (slice path (if steps = [] then st else fst (last steps) + 1) e)
        else slice path (if steps = [] then st else fst (last steps) + 1) e) = Some n"
proof (induction steps arbitrary: par st)
  case Nil
  show ?case by simp
next
  case (Cons s steps)
  obtain e1 n1 where s: "s = (e1, n1)" by (cases s)
  show ?case
    unfolding s using Cons.IH [of n1 "e1 + 1"] by (cases "steps = []") auto
qed

lemma capturesOf_snoc:
  "capturesOf t path st (steps @ [(e, n)]) ps =
     (if name (nodes t ! n) = [] then capturesOf t path st steps ps
      else (capturesOf t path st steps ps)
             (name (nodes t ! n) \<mapsto>
                captureOf (nodes t ! n) path (if steps = [] then st else fst (last steps) + 1) e))"
proof (induction steps arbitrary: st ps)
  case Nil
  show ?case by simp
next
  case (Cons s steps)
  obtain e1 n1 where s: "s = (e1, n1)" by (cases s)
  show ?case
    unfolding s using Cons.IH [of "e1 + 1"] by (cases "steps = []") auto
qed

lemma Node_matchEnd: "Node (matchEnd t path fl par ps) = Some n \<Longrightarrow> n = par"
  by (auto simp: matchEnd_def split: if_splits)

lemma Node_matchFail [simp]: "Node (matchFail t path fl par i seg ps) = None"
  by (simp add: matchFail_def)

lemma descentInv_segment:
  assumes "descentInv L t path i st par ps" "i \<le> length path"
    "\<not> (i < length path \<and> path ! i \<noteq> CHR ''/'')"
  shows "isSegment path st i"
  using assms slice_avoids [of i path st "CHR ''/''"]
  by (auto simp: descentInv_def isSegment_def)


lemma matchLoop_descent:
  assumes inv: "descentInv L t path i st par ps"
    and res: "matchLoop L t path fl i st par ps = Inr m"
  shows "descentOK L t path m"
proof -
  let ?Q = "\<lambda>r. \<forall>m. r = Inr m \<longrightarrow> descentOK L t path m"
  have "?Q (matchLoop L t path fl i st par ps)"
  proof (rule matchLoop_rule [where I = "descentInv L t path", OF inv])
    fix i st par ps
    assume "descentInv L t path i st par ps" "i < length path" "path ! i \<noteq> CHR ''/''"
    then show "descentInv L t path (i + 1) st par ps"
      by (auto simp: descentInv_def less_Suc_eq)
  next
    fix i st par ps
    assume "descentInv L t path i st par ps"
    then show "?Q (Inr (matchFail t path fl par i (slice path st i) ps))"
      by (auto simp: descentInv_def descentOK_def)
  next
    fix i st par ps n
    assume I: "descentInv L t path i st par ps" and le: "i \<le> length path"
      and nsl: "\<not> (i < length path \<and> path ! i \<noteq> CHR ''/'')"
      and mn: "matchNode (nodes t) par
                 (if ignoreCase t then ToLower L (slice path st i) else slice path st i) = Some n"
      and nm: "name (nodes t ! n) \<noteq> []" and w: "wildcard (nodes t ! n)"
    have seg: "isSegment path st i" by (rule descentInv_segment [OF I le nsl])
    from I obtain steps where d: "descends L t path (root t) 1 steps"
      and ps: "ps = capturesOf t path 1 steps Map.empty"
      and par: "par = (if steps = [] then root t else snd (last steps))"
      and st: "st = (if steps = [] then 1 else fst (last steps) + 1)"
      by (auto simp: descentInv_def)
    have cap: "slice path st (length path) = captureOf (nodes t ! n) path st i"
      using w by (simp add: captureOf_def slice_def)
    have d': "descends L t path (root t) 1 (steps @ [(i, n)])"
      unfolding descends_snoc par [symmetric] st [symmetric] by (intro conjI d seg mn)
    have c': "ps(name (nodes t ! n) \<mapsto> slice path st (length path)) =
              capturesOf t path 1 (steps @ [(i, n)]) Map.empty"
      unfolding capturesOf_snoc st [symmetric] ps [symmetric] using nm cap by simp
    show "?Q (Inr (matchEnd t path fl n
                (ps(name (nodes t ! n) \<mapsto> slice path st (length path)))))"
    proof (intro allI impI)
      fix m assume "Inr (matchEnd t path fl n
                (ps(name (nodes t ! n) \<mapsto> slice path st (length path)))) = Inr m"
      then have m: "m = matchEnd t path fl n
                (ps(name (nodes t ! n) \<mapsto> slice path st (length path)))" by simp
      show "descentOK L t path m"
        unfolding descentOK_def
      proof (intro exI [of _ "steps @ [(i, n)]"] conjI allI impI)
        show "descends L t path (root t) 1 (steps @ [(i, n)])" by (rule d')
        show "Params m = capturesOf t path 1 (steps @ [(i, n)]) Map.empty"
          using c' by (simp add: m)
      next
        fix k assume "Node m = Some k"
        then have "k = n" unfolding m by (rule Node_matchEnd)
        then show "steps @ [(i, n)] \<noteq> []" and "k = snd (last (steps @ [(i, n)]))"
          and "fst (last (steps @ [(i, n)])) = length path \<or>
               (name (nodes t ! k) \<noteq> [] \<and> wildcard (nodes t ! k))"
          using nm w by simp_all
      qed
    qed
  next
    fix i st par ps n
    assume I: "descentInv L t path i st par ps" and le: "i \<le> length path"
      and nsl: "\<not> (i < length path \<and> path ! i \<noteq> CHR ''/'')"
      and mn: "matchNode (nodes t) par
                 (if ignoreCase t then ToLower L (slice path st i) else slice path st i) = Some n"
      and nw: "\<not> (name (nodes t ! n) \<noteq> [] \<and> wildcard (nodes t ! n))"
    have seg: "isSegment path st i" by (rule descentInv_segment [OF I le nsl])
    from I obtain steps where d: "descends L t path (root t) 1 steps"
      and ps: "ps = capturesOf t path 1 steps Map.empty"
      and par: "par = (if steps = [] then root t else snd (last steps))"
      and st: "st = (if steps = [] then 1 else fst (last steps) + 1)"
      by (auto simp: descentInv_def)
    have d': "descends L t path (root t) 1 (steps @ [(i, n)])"
      unfolding descends_snoc par [symmetric] st [symmetric] by (intro conjI d seg mn)
    have "bindParam (nodes t ! n) (slice path st i) ps =
            (if name (nodes t ! n) = [] then ps
             else ps(name (nodes t ! n) \<mapsto> captureOf (nodes t ! n) path st i))"
      using nw by (auto simp: bindParam_def captureOf_def slice_def)
    then have c': "bindParam (nodes t ! n) (slice path st i) ps =
              capturesOf t path 1 (steps @ [(i, n)]) Map.empty"
      unfolding capturesOf_snoc st [symmetric] ps [symmetric] .
    have sl: "path ! i = CHR ''/''" if "i + 1 \<le> length path"
      using that nsl by auto
    have "\<exists>steps'. descends L t path (root t) 1 steps' \<and>
         bindParam (nodes t ! n) (slice path st i) ps = capturesOf t path 1 steps' Map.empty \<and>
         n = (if steps' = [] then root t else snd (last steps')) \<and>
         i + 1 = (if steps' = [] then 1 else fst (last steps') + 1)"
      using d' c' by (intro exI [of _ "steps @ [(i, n)]"]) simp
    moreover have "\<forall>k. i + 1 \<le> k \<and> k < i + 1 \<longrightarrow> path ! k \<noteq> CHR ''/''" by auto
    ultimately show "descentInv L t path (i + 1) (i + 1) n
                        (bindParam (nodes t ! n) (slice path st i) ps)"
      unfolding descentInv_def using sl I by (intro conjI) (simp_all add: descentInv_def)
  next
    fix i st par ps
    assume I: "descentInv L t path i st par ps" and gt: "\<not> i \<le> length path"
    from I obtain steps where d: "descends L t path (root t) 1 steps"
      and ps: "ps = capturesOf t path 1 steps Map.empty"
      and par: "par = (if steps = [] then root t else snd (last steps))"
      and st: "st = (if steps = [] then 1 else fst (last steps) + 1)"
      by (auto simp: descentInv_def)
    from I gt have sti: "st = i" and pne: "path \<noteq> []" by (simp_all add: descentInv_def)
    show "?Q (Inr (matchEnd t path fl par ps))"
    proof (intro allI impI)
      fix m assume "Inr (matchEnd t path fl par ps) = Inr m"
      then have m: "m = matchEnd t path fl par ps" by simp
      have ne: "steps \<noteq> []"
      proof
        assume "steps = []"
        with st sti gt pne show False by (cases path) simp_all
      qed
      show "descentOK L t path m"
        unfolding descentOK_def
      proof (intro exI [of _ steps] conjI allI impI)
        show "descends L t path (root t) 1 steps" by (rule d)
        show "Params m = capturesOf t path 1 steps Map.empty" by (simp add: m ps)
      next
        fix k assume "Node m = Some k"
        then have "k = par" unfolding m by (rule Node_matchEnd)
        with ne par show "steps \<noteq> []" and "k = snd (last steps)" by simp_all
        have "isSegment path (if butlast steps = [] then 1 else fst (last (butlast steps)) + 1)
                (fst (last steps))"
          using d ne descends_snoc [of L t path "root t" 1 "butlast steps" "fst (last steps)"
              "snd (last steps)"]
          by simp
        then have "fst (last steps) \<le> length path" by (simp add: isSegment_def)
        with st sti gt ne have "fst (last steps) = length path" by simp
        then show "fst (last steps) = length path \<or>
               (name (nodes t ! k) \<noteq> [] \<and> wildcard (nodes t ! k))" by simp
      qed
    qed
  next
    show "?Q (Inl SliceOutOfRange)" by simp
  qed
  with res show ?thesis by blast
qed


lemma capTest_suffix:
  "Match goLib (capTest_trie :: 'h Trie) ''/API/Xy:cancel'' =
     Inr \<lparr>Node = Some 2, Params = [''ID'' \<mapsto> ''Xy''], FPR = [], TSR = []\<rparr>"
  by (simp add: capTest_trie_def string_defs lib_defs define_defs match_defs)

lemma capTest_two:
  "Match goLib (capTest_trie :: 'h Trie) ''/x/Y'' =
     Inr \<lparr>Node = Some 4, Params = [''a'' \<mapsto> ''x'', ''b'' \<mapsto> ''Y''], FPR = [], TSR = []\<rparr>"
  by (simp add: capTest_trie_def string_defs lib_defs define_defs match_defs)

lemma capTest_wild:
  "Match goLib (capTest_trie :: 'h Trie) ''/files/a/B/c'' =
     Inr \<lparr>Node = Some 6, Params = [''rest'' \<mapsto> ''a/B/c''], FPR = [], TSR = []\<rparr>"
  by (simp add: capTest_trie_def string_defs lib_defs define_defs match_defs)

lemma capTest_fixed:
  "Match goLib (capTest_trie :: 'h Trie) ''/x//Y'' =
     Inr \<lparr>Node = None, Params = [''a'' \<mapsto> ''x'', ''b'' \<mapsto> ''Y''], FPR = ''/x/Y'', TSR = []\<rparr>"
  by (simp add: capTest_trie_def string_defs lib_defs define_defs match_defs)

lemma slice_nth_mem:
  assumes "st \<le> k" "k < e" "e \<le> length p"
  shows "p ! k \<in> set (slice p st e)"
proof -
  have "k - st < length (slice p st e)" using assms by (simp add: slice_def)
  moreover have "slice p st e ! (k - st) = p ! k" using assms by (simp add: slice_def)
  ultimately show ?thesis by (metis nth_mem)
qed

lemma isSegment_unique:
  assumes "isSegment path st e" "isSegment path st e'"
  shows "e = e'"
proof -
  have aux: False if a: "isSegment path st x" and b: "isSegment path st y" and lt: "x < y"
    for x y
  proof -
    from b have y: "y \<le> length path" by (simp add: isSegment_def)
    with lt a have "path ! x = CHR ''/''" by (auto simp: isSegment_def)
    moreover from a have "st \<le> x" by (simp add: isSegment_def)
    ultimately have "CHR ''/'' \<in> set (slice path st y)"
      using slice_nth_mem [OF _ lt y] by metis
    with b show False by (simp add: isSegment_def)
  qed
  show ?thesis
    using aux [OF assms] aux [OF assms(2) assms(1)] by (meson linorder_neqE_nat)
qed

lemma descends_unique:
  assumes "descends L t path par st s1" "descends L t path par st s2" "length s1 = length s2"
  shows "s1 = s2"
  using assms
proof (induction s1 arbitrary: par st s2)
  case Nil
  then show ?case by simp
next
  case (Cons a s1)
  obtain e n where a: "a = (e, n)" by (cases a)
  from Cons.prems(3) obtain b s2' where s2: "s2 = b # s2'" by (cases s2) auto
  obtain e' n' where b: "b = (e', n')" by (cases b)
  from Cons.prems(1,2) have ee: "e = e'"
    unfolding a s2 b by (auto intro: isSegment_unique)
  with Cons.prems(1,2) have nn: "n = n'" unfolding a s2 b by auto
  from Cons.prems have "s1 = s2'"
    unfolding a s2 b ee nn by (auto intro: Cons.IH)
  with ee nn show ?case by (simp add: a s2 b)
qed


text \<open>
  Claim C5. Whenever \<open>Match\<close> returns, the nodes it went through form a descent from the
  root over the segments of the path (slash-normalised when \<open>fpr\<close> is set), in the order
  of the path, and \<open>Params\<close> holds exactly the bindings of that descent: the name of
  each named node of the descent is bound to the bytes of the path that the node captures
  from its own segment, which are the segment without its last \<open>len(suffix)\<close> bytes for a
  node with a suffix, the rest of the path from the segment's start for a wildcard, and the
  whole segment otherwise. The descent is the only one of its length, so the bindings
  are determined by the trie and the path. When a node is returned, it is the node of the
  last step, and the descent covers the whole path: the last step ends at the end of the
  path, or it enters a named wildcard. The bytes are those of the path, whatever
  \<open>ToLower\<close> does to the key handed to \<open>matchNode\<close>: with the patterns
  \<open>/api/:ID+:cancel\<close>, \<open>/:a/:b\<close> and \<open>/files/:rest*\<close> and the default options,
  \<open>/API/Xy:cancel\<close> binds \<open>ID\<close> to \<open>Xy\<close>, \<open>/x/Y\<close> binds \<open>a\<close> to \<open>x\<close> and \<open>b\<close> to
  \<open>Y\<close>, \<open>/files/a/B/c\<close> binds \<open>rest\<close> to \<open>a/B/c\<close>, and \<open>/x//Y\<close> binds as \<open>/x/Y\<close>
  does, on the way to the redirect.
\<close>

theorem C5_captures_follow_the_descent:
  fixes t :: "'h Trie"
  assumes "Match L t path0 = Inr m" and "path = (if fpr t then fixPath path0 else path0)"
  shows
    "(\<exists>steps.
        descends L t path (root t) 1 steps \<and>
        Params m = capturesOf t path 1 steps Map.empty \<and>
        (\<forall>steps'. descends L t path (root t) 1 steps' \<and> length steps' = length steps \<longrightarrow>
           steps' = steps) \<and>
        (\<forall>n. Node m = Some n \<longrightarrow>
           steps \<noteq> [] \<and> n = snd (last steps) \<and>
           (fst (last steps) = length path \<or>
            (name (nodes t ! n) \<noteq> [] \<and> wildcard (nodes t ! n))))) \<and>
     Match goLib (capTest_trie :: 'h Trie) ''/API/Xy:cancel'' =
       Inr \<lparr>Node = Some 2, Params = [''ID'' \<mapsto> ''Xy''], FPR = [], TSR = []\<rparr> \<and>
     Match goLib (capTest_trie :: 'h Trie) ''/x/Y'' =
       Inr \<lparr>Node = Some 4, Params = [''a'' \<mapsto> ''x'', ''b'' \<mapsto> ''Y''], FPR = [], TSR = []\<rparr> \<and>
     Match goLib (capTest_trie :: 'h Trie) ''/files/a/B/c'' =
       Inr \<lparr>Node = Some 6, Params = [''rest'' \<mapsto> ''a/B/c''], FPR = [], TSR = []\<rparr> \<and>
     Match goLib (capTest_trie :: 'h Trie) ''/x//Y'' =
       Inr \<lparr>Node = None, Params = [''a'' \<mapsto> ''x'', ''b'' \<mapsto> ''Y''], FPR = ''/x/Y'',
            TSR = []\<rparr>"
proof (intro conjI)
  from assms(1) have ne: "path0 \<noteq> []" "hd path0 = CHR ''/''"
    by (auto simp: Match_def split: if_splits)
  then have p0: "path \<noteq> [] \<and> path ! 0 = CHR ''/''"
    using fixPath_head [OF ne] by (auto simp: assms(2) hd_conv_nth)
  from assms(1) ne obtain fl where
    run: "matchLoop L t path fl 1 1 (root t) Map.empty = Inr m"
    by (auto simp: Match_def Let_def assms(2) split: if_splits)
  have "\<exists>steps. descends L t path (root t) 1 steps \<and>
         Map.empty = capturesOf t path 1 steps Map.empty \<and>
         root t = (if steps = [] then root t else snd (last steps)) \<and>
         (1::nat) = (if steps = [] then 1 else fst (last steps) + 1)"
    by (intro exI [of _ "[]"]) simp
  with p0 have "descentInv L t path 1 1 (root t) Map.empty"
    by (cases path) (simp_all add: descentInv_def)
  from matchLoop_descent [OF this run] obtain steps where
    s: "descends L t path (root t) 1 steps" "Params m = capturesOf t path 1 steps Map.empty"
      "\<forall>n. Node m = Some n \<longrightarrow>
           steps \<noteq> [] \<and> n = snd (last steps) \<and>
           (fst (last steps) = length path \<or>
            (name (nodes t ! n) \<noteq> [] \<and> wildcard (nodes t ! n)))"
    unfolding descentOK_def by blast
  have "\<forall>steps'. descends L t path (root t) 1 steps' \<and> length steps' = length steps \<longrightarrow>
           steps' = steps"
    using descends_unique [OF _ s(1)] by blast
  with s show "\<exists>steps.
        descends L t path (root t) 1 steps \<and>
        Params m = capturesOf t path 1 steps Map.empty \<and>
        (\<forall>steps'. descends L t path (root t) 1 steps' \<and> length steps' = length steps \<longrightarrow>
           steps' = steps) \<and>
        (\<forall>n. Node m = Some n \<longrightarrow>
           steps \<noteq> [] \<and> n = snd (last steps) \<and>
           (fst (last steps) = length path \<or>
            (name (nodes t ! n) \<noteq> [] \<and> wildcard (nodes t ! n))))"
    by blast
qed (rule capTest_suffix capTest_two capTest_wild capTest_fixed)+

lemma capTest_facts:
  "fpr (capTest_trie :: 'h Trie) \<and> root (capTest_trie :: 'h Trie) = 0 \<and>
   \<not> wildcard (nodes (capTest_trie :: 'h Trie) ! 4)"
  by (simp add: capTest_trie_def string_defs lib_defs define_defs)

theorem C5_captures_follow_the_descent_witness:
  "Match goLib (capTest_trie :: unit Trie) ''/x/Y'' =
     Inr \<lparr>Node = Some 4, Params = [''a'' \<mapsto> ''x'', ''b'' \<mapsto> ''Y''], FPR = [], TSR = []\<rparr> \<and>
   ''/x/Y'' = (if fpr (capTest_trie :: unit Trie) then fixPath ''/x/Y'' else ''/x/Y'') \<and>
   (\<exists>steps.
      descends goLib (capTest_trie :: unit Trie) ''/x/Y'' 0 1 steps \<and>
      [''a'' \<mapsto> ''x'', ''b'' \<mapsto> ''Y''] =
        capturesOf (capTest_trie :: unit Trie) ''/x/Y'' 1 steps Map.empty \<and>
      steps \<noteq> [] \<and> snd (last steps) = 4 \<and> fst (last steps) = 4)"
proof -
  have n: "''/x/Y'' = (if fpr (capTest_trie :: unit Trie) then fixPath ''/x/Y'' else ''/x/Y'')"
    by (simp add: fixPath_def string_defs)
  from C5_captures_follow_the_descent [OF capTest_two [where ?'h = unit] n, THEN conjunct1]
  obtain steps where
    d: "descends goLib (capTest_trie :: unit Trie) ''/x/Y'' (root (capTest_trie :: unit Trie)) 1 steps"
    and p: "[''a'' \<mapsto> ''x'', ''b'' \<mapsto> ''Y''] =
        capturesOf (capTest_trie :: unit Trie) ''/x/Y'' 1 steps Map.empty"
    and l: "steps \<noteq> [] \<and> 4 = snd (last steps) \<and>
       (fst (last steps) = length ''/x/Y'' \<or>
        (name (nodes (capTest_trie :: unit Trie) ! 4) \<noteq> [] \<and>
         wildcard (nodes (capTest_trie :: unit Trie) ! 4)))"
    by auto
  from l capTest_facts [where ?'h = unit]
  have "steps \<noteq> [] \<and> snd (last steps) = 4 \<and> fst (last steps) = 4" by simp
  moreover from d capTest_facts [where ?'h = unit]
  have "descends goLib (capTest_trie :: unit Trie) ''/x/Y'' 0 1 steps" by simp
  ultimately show ?thesis
    using p n capTest_two [where ?'h = unit] by blast
qed

section \<open>Case folding and parametric children\<close>

lemma caseTest_same_store:
  "nodes (caseTest_trie True ''/:b+Del'' :: 'h Trie) = nodes (caseTest_trie False ''/:b+Del'')"
  by (simp add: caseTest_trie_def string_defs lib_defs define_defs)

lemma caseTest_child:
  "varyChildren (nodes (caseTest_trie True ''/:b+Del'' :: 'h Trie) ! 0) = [1] \<and>
   suffix (nodes (caseTest_trie True ''/:b+Del'' :: 'h Trie) ! 1) = ''Del''"
  by (simp add: caseTest_trie_def string_defs lib_defs define_defs)

lemma caseTest_on:
  "Match goLib (caseTest_trie True ''/:b+Del'' :: 'h Trie) ''/xDel'' =
     Inr \<lparr>Node = None, Params = Map.empty, FPR = [], TSR = []\<rparr>"
  by (simp add: caseTest_trie_def string_defs lib_defs define_defs match_defs)

lemma caseTest_off:
  "Match goLib (caseTest_trie False ''/:b+Del'' :: 'h Trie) ''/xDel'' =
     Inr \<lparr>Node = Some 1, Params = [''b'' \<mapsto> ''x''], FPR = [], TSR = []\<rparr>"
  by (simp add: caseTest_trie_def string_defs lib_defs define_defs match_defs)

lemma caseTest_regex_on:
  "Match goLib (caseTest_trie True ''/:id(ABC)'' :: 'h Trie) ''/ABC'' =
     Inr \<lparr>Node = None, Params = Map.empty, FPR = [], TSR = []\<rparr>"
  by (simp add: caseTest_trie_def string_defs lib_defs define_defs match_defs)

lemma caseTest_regex_off:
  "Match goLib (caseTest_trie False ''/:id(ABC)'' :: 'h Trie) ''/ABC'' =
     Inr \<lparr>Node = Some 1, Params = [''id'' \<mapsto> ''ABC''], FPR = [], TSR = []\<rparr>"
  by (simp add: caseTest_trie_def string_defs lib_defs define_defs match_defs)



lemma caseTest_accepts:
  "\<not> varyAccepts (nodes (caseTest_trie True ''/:b+Del'' :: 'h Trie) ! 1)
       (ToLower goLib ''xDel'') \<and>
   varyAccepts (nodes (caseTest_trie False ''/:b+Del'' :: 'h Trie) ! 1) ''xDel''"
  by (simp add: caseTest_trie_def string_defs lib_defs define_defs match_defs)

text \<open>
  Claim C4. The code does not do what the claim says: \<open>Match\<close> hands \<open>matchNode\<close> the
  lower-cased segment when \<open>ignoreCase\<close> is set, and \<open>matchNode\<close> tests suffixes and
  regular expressions on what it is handed, while \<open>Define\<close> stores them as authored.
  The pattern \<open>/:b+Del\<close> gives the same nodes with \<open>IgnoreCase\<close> on and off (the root
  and one parametric child with the suffix \<open>Del\<close>); the child accepts the segment
  \<open>xDel\<close> with \<open>IgnoreCase\<close> off and rejects it with \<open>IgnoreCase\<close> on, where it is
  tested on \<open>xdel\<close>, so \<open>Match("/xDel")\<close> finds the endpoint in one run and nothing in
  the other. Likewise the child of \<open>/:id(ABC)\<close> for the segment \<open>ABC\<close>.
\<close>

theorem C4_folded_segment_is_tested:
  "nodes (caseTest_trie True ''/:b+Del'' :: unit Trie) = nodes (caseTest_trie False ''/:b+Del'') \<and>
   varyChildren (nodes (caseTest_trie True ''/:b+Del'' :: unit Trie) ! 0) = [1] \<and>
   suffix (nodes (caseTest_trie True ''/:b+Del'' :: unit Trie) ! 1) = ''Del'' \<and>
   \<not> varyAccepts (nodes (caseTest_trie True ''/:b+Del'' :: unit Trie) ! 1)
       (ToLower goLib ''xDel'') \<and>
   varyAccepts (nodes (caseTest_trie False ''/:b+Del'' :: unit Trie) ! 1) ''xDel'' \<and>
   Match goLib (caseTest_trie True ''/:b+Del'' :: unit Trie) ''/xDel'' =
     Inr \<lparr>Node = None, Params = Map.empty, FPR = [], TSR = []\<rparr> \<and>
   Match goLib (caseTest_trie False ''/:b+Del'' :: unit Trie) ''/xDel'' =
     Inr \<lparr>Node = Some 1, Params = [''b'' \<mapsto> ''x''], FPR = [], TSR = []\<rparr> \<and>
   Match goLib (caseTest_trie True ''/:id(ABC)'' :: unit Trie) ''/ABC'' =
     Inr \<lparr>Node = None, Params = Map.empty, FPR = [], TSR = []\<rparr> \<and>
   Match goLib (caseTest_trie False ''/:id(ABC)'' :: unit Trie) ''/ABC'' =
     Inr \<lparr>Node = Some 1, Params = [''id'' \<mapsto> ''ABC''], FPR = [], TSR = []\<rparr>"
  using caseTest_same_store [where ?'h = unit] caseTest_child [where ?'h = unit]
    caseTest_accepts [where ?'h = unit] caseTest_on [where ?'h = unit]
    caseTest_off [where ?'h = unit] caseTest_regex_on [where ?'h = unit]
    caseTest_regex_off [where ?'h = unit]
  by simp

theorem C4_folded_segment_is_tested_witness:
  "(case Match goLib (caseTest_trie True ''/:b+Del'' :: unit Trie) ''/xDel'' of
      Inl e \<Rightarrow> False
    | Inr m \<Rightarrow> Node m = None) \<and>
   (case Match goLib (caseTest_trie False ''/:b+Del'' :: unit Trie) ''/xDel'' of
      Inl e \<Rightarrow> False
    | Inr m \<Rightarrow> Node m = Some 1 \<and> Params m ''b'' = Some ''x'')"
  using C4_folded_segment_is_tested by simp

end
